theory Spec2Isabelle
  imports Main "HOL-Library.Word"
begin

section \<open>JavaScript strings\<close>

text \<open>
  A JavaScript string is a sequence of UTF-16 code units. String literals of the source
  that are plain ASCII are written with \<open>ascii\<close>; the few literals with CJK characters
  are written out as code units.
\<close>

type_synonym jschar = "16 word"
type_synonym jsstring = "jschar list"

definition ascii :: "string \<Rightarrow> jsstring" where
  "ascii s = map of_char s"

text \<open>\<^verbatim>\<open>s.startsWith(p)\<close>\<close>

definition startsWith :: "jsstring \<Rightarrow> jsstring \<Rightarrow> bool" where
  "startsWith s p = (take (length p) s = p)"

text \<open>\<^verbatim>\<open>s.includes(p)\<close>\<close>

fun js_includes :: "jsstring \<Rightarrow> jsstring \<Rightarrow> bool" where
  "js_includes [] p = (p = [])"
| "js_includes (c # cs) p = (startsWith (c # cs) p \<or> js_includes cs p)"

text \<open>
  \<^verbatim>\<open>s.split(sep)\<close> for a string separator: the separator is searched from the left, matches
  do not overlap, and the piece after the last match (possibly empty) is the last element.
  \<open>split_at\<close> is the scan for a non-empty separator; its last case alternative is never
  taken (the result is never empty). An empty separator splits into code units.
\<close>

function split_at :: "jsstring \<Rightarrow> jsstring \<Rightarrow> jsstring list" where
  "split_at sep [] = [[]]"
| "split_at sep (c # cs) =
     (if sep \<noteq> [] \<and> startsWith (c # cs) sep
      then [] # split_at sep (drop (length sep) (c # cs))
      else (case split_at sep cs of
              p # ps \<Rightarrow> (c # p) # ps
            | [] \<Rightarrow> [[c]]))"
  by pat_completeness auto
termination
  by (relation "measure (\<lambda>(sep, s). length s)") auto

definition js_split :: "jsstring \<Rightarrow> jsstring \<Rightarrow> jsstring list" where
  "js_split s sep = (if sep = [] then map (\<lambda>c. [c]) s else split_at sep s)"

text \<open>
  \<^verbatim>\<open>s.trim()\<close> removes leading and trailing white space and line terminators
  (ECMAScript \<open>WhiteSpace\<close> and \<open>LineTerminator\<close>).
\<close>

definition js_whitespace :: "jschar \<Rightarrow> bool" where
  "js_whitespace c =
     (c \<in> set [0x09, 0x0A, 0x0B, 0x0C, 0x0D, 0x20, 0xA0, 0x1680, 0x2028, 0x2029,
                0x202F, 0x205F, 0x3000, 0xFEFF]
      \<or> (0x2000 \<le> c \<and> c \<le> 0x200A))"

definition js_trim :: "jsstring \<Rightarrow> jsstring" where
  "js_trim s = rev (dropWhile js_whitespace (rev (dropWhile js_whitespace s)))"

text \<open>
  \<^verbatim>\<open>String(n)\<close> for an integer \<open>n\<close>. Numbers of the program (page numbers, ranks, clock
  readings) are modelled as integers; the model is exact for values of magnitude up to
  \<open>2 ^ 53\<close>, where a double represents every integer and \<^verbatim>\<open>String\<close> prints all its digits.
\<close>

function show_nat :: "nat \<Rightarrow> jsstring" where
  "show_nat n =
     (if n < 10 then [of_nat (48 + n)]
      else show_nat (n div 10) @ [of_nat (48 + n mod 10)])"
  by pat_completeness auto
termination
  by (relation "measure id") auto

definition show_int :: "int \<Rightarrow> jsstring" where
  "show_int i = (if i < 0 then 0x2D # show_nat (nat (- i)) else show_nat (nat i))"


section \<open>Stream transport: \<^verbatim>\<open>processChatStream\<close> (services/api.ts)\<close>

text \<open>
  The payload of an event is the result of \<^verbatim>\<open>JSON.parse\<close>. The program only reads
  properties of it, and reading a property of any JSON value other than \<^verbatim>\<open>null\<close> gives the
  property or \<^verbatim>\<open>undefined\<close>, while reading a property of \<^verbatim>\<open>null\<close> throws. So a payload is
  \<^verbatim>\<open>null\<close> or a record of the properties the program reads, each absent (\<open>None\<close>, the
  property reads as \<^verbatim>\<open>undefined\<close>) or present with the type the TypeScript signatures of
  the callbacks declare; a property that is present with the value \<^verbatim>\<open>null\<close> is not of that
  type and is not modelled. Field names carry the prefix \<open>d_\<close>.
\<close>

record payload =
  d_text :: "jsstring option"
  d_message :: "jsstring option"
  d_citation_id :: "jsstring option"
  d_fileId :: "jsstring option"
  d_rank :: "int option"
  d_page :: "int option"
  d_previewUrl :: "jsstring option"
  d_snippet :: "jsstring option"
  d_used_retrieval :: "bool option"

datatype json = JNull | JObj payload

text \<open>
  The four callbacks of \<^verbatim>\<open>processChatStream\<close>, with the argument each is called with:
  \<^verbatim>\<open>onCitation(data)\<close>, \<^verbatim>\<open>onToken(data.text)\<close>, \<^verbatim>\<open>onDone(data)\<close>,
  \<^verbatim>\<open>onError(data.message || 'Unknown error')\<close>.
\<close>

datatype callback =
    OnCitation json
  | OnToken "jsstring option"
  | OnDone json
  | OnError jsstring

fun is_terminal :: "callback \<Rightarrow> bool" where
  "is_terminal (OnDone _) = True"
| "is_terminal (OnError _) = True"
| "is_terminal _ = False"

text \<open>
  The inner loop over the lines of one block: the last \<^verbatim>\<open>event: \<close> line and the last
  \<^verbatim>\<open>data: \<close> line win.
\<close>

fun scan_lines :: "jsstring list \<Rightarrow> jsstring \<times> jsstring \<Rightarrow> jsstring \<times> jsstring" where
  "scan_lines [] acc = acc"
| "scan_lines (line # rest) (eventType, eventData) =
     (if startsWith line (ascii ''event: '') then scan_lines rest (drop 7 line, eventData)
      else if startsWith line (ascii ''data: '') then scan_lines rest (eventType, drop 6 line)
      else scan_lines rest (eventType, eventData))"

text \<open>
  The \<^verbatim>\<open>try { JSON.parse ... switch ... } catch\<close> of one block. \<^verbatim>\<open>JSON.parse\<close> is the
  parameter \<open>parse\<close> (\<open>None\<close> when it throws). The result is the callback invoked, if
  any, and whether the function returns. A \<^verbatim>\<open>null\<close> payload makes \<^verbatim>\<open>data.text\<close> and
  \<^verbatim>\<open>data.message\<close> throw before the callback is called; the \<^verbatim>\<open>catch\<close> logs it and the loop
  goes on.
\<close>

definition dispatch ::
  "(jsstring \<Rightarrow> json option) \<Rightarrow> jsstring \<Rightarrow> jsstring \<Rightarrow> callback list \<times> bool" where
  "dispatch parse eventType eventData =
     (case parse eventData of
        None \<Rightarrow> ([], False)
      | Some data \<Rightarrow>
          if eventType = ascii ''citation'' then ([OnCitation data], False)
          else if eventType = ascii ''token'' then
            (case data of
               JNull \<Rightarrow> ([], False)
             | JObj d \<Rightarrow> ([OnToken (d_text d)], False))
          else if eventType = ascii ''done'' then ([OnDone data], True)
          else if eventType = ascii ''error'' then
            (case data of
               JNull \<Rightarrow> ([], False)
             | JObj d \<Rightarrow>
                 ([OnError (case d_message d of
                              None \<Rightarrow> ascii ''Unknown error''
                            | Some m \<Rightarrow> if m = [] then ascii ''Unknown error'' else m)],
                  True))
          else ([], False))"

text \<open>The body of \<^verbatim>\<open>for (const event of events)\<close> for one block.\<close>

definition handle_event ::
  "(jsstring \<Rightarrow> json option) \<Rightarrow> jsstring \<Rightarrow> callback list \<times> bool" where
  "handle_event parse event =
     (if js_trim event = [] then ([], False)
      else
        (let (eventType, eventData) = scan_lines (js_split event (ascii ''\<newline>'')) ([], [])
         in if eventType \<noteq> [] \<and> eventData \<noteq> [] then dispatch parse eventType eventData
            else ([], False)))"

text \<open>
  The loop over the complete blocks of one chunk: the callbacks invoked, in order, and
  whether a \<^verbatim>\<open>return\<close> was reached (then the remaining blocks are not looked at).
\<close>

fun process_events ::
  "(jsstring \<Rightarrow> json option) \<Rightarrow> jsstring list \<Rightarrow> callback list \<times> bool" where
  "process_events parse [] = ([], False)"
| "process_events parse (event # rest) =
     (case handle_event parse event of
        (cbs, True) \<Rightarrow> (cbs, True)
      | (cbs, False) \<Rightarrow>
          (case process_events parse rest of (cbs', r) \<Rightarrow> (cbs @ cbs', r)))"

text \<open>
  The \<^verbatim>\<open>while (true)\<close> loop over the chunks the reader delivers, from a buffer. The chunks
  are the strings \<^verbatim>\<open>decoder.decode(value, { stream: true })\<close> returns (a streaming decoder
  keeps an incomplete byte sequence for the next call, so the concatenation of these
  strings does not depend on where the bytes were cut). The list ends where the reader
  reports \<^verbatim>\<open>done\<close>: the loop breaks and what is left in the buffer is dropped.
\<close>

fun read_loop ::
  "(jsstring \<Rightarrow> json option) \<Rightarrow> jsstring \<Rightarrow> jsstring list \<Rightarrow> callback list \<times> bool" where
  "read_loop parse buffer [] = ([], False)"
| "read_loop parse buffer (chunk # chunks) =
     (let events = js_split (buffer @ chunk) (ascii ''\<newline>\<newline>'')
      in case process_events parse (butlast events) of
           (cbs, True) \<Rightarrow> (cbs, True)
         | (cbs, False) \<Rightarrow>
             (case read_loop parse (last events) chunks of (cbs', r) \<Rightarrow> (cbs @ cbs', r)))"


text \<open>
  Exceptions and the outcome of a \<^verbatim>\<open>fetch\<close>: the promise rejects, or a response arrives
  with its \<^verbatim>\<open>ok\<close> flag and status text, whose body \<^verbatim>\<open>response.json()\<close> reads (or fails
  to read).
\<close>

datatype js_error =
    TypeError jsstring
  | SyntaxError jsstring
  | Error jsstring

fun error_message :: "js_error \<Rightarrow> jsstring" where
  "error_message (TypeError m) = m"
| "error_message (SyntaxError m) = m"
| "error_message (Error m) = m"

fun error_name :: "js_error \<Rightarrow> jsstring" where
  "error_name (TypeError m) = ascii ''TypeError''"
| "error_name (SyntaxError m) = ascii ''SyntaxError''"
| "error_name (Error m) = ascii ''Error''"

fun is_TypeError :: "js_error \<Rightarrow> bool" where
  "is_TypeError (TypeError m) = True"
| "is_TypeError _ = False"

text \<open>\<^verbatim>\<open>String(error)\<close>: the name, and the message after a colon when there is one.\<close>

definition error_string :: "js_error \<Rightarrow> jsstring" where
  "error_string e =
     (if error_message e = [] then error_name e
      else error_name e @ ascii '': '' @ error_message e)"

datatype fetch_outcome =
    Rejected js_error
  | Responded bool jsstring "js_error option"

section \<open>\<^verbatim>\<open>processChatStream\<close> as a whole\<close>

text \<open>
  What the network does to one chat request: \<^verbatim>\<open>fetch\<close> rejects, or a response arrives
  with its \<^verbatim>\<open>ok\<close> flag, its status text and possibly a body; a body delivers chunks and
  then ends, or a read fails.
\<close>

datatype body = Body "jsstring list" "js_error option"

datatype chat_response =
    ChatRejected js_error
  | ChatResponded bool jsstring "body option"

text \<open>
  The simulated answer of the \<^verbatim>\<open>catch\<close> block, built around the question; its words are
  passed to \<^verbatim>\<open>onToken\<close> one by one, each followed by a space, and then \<^verbatim>\<open>onDone\<close> is
  called.
\<close>

definition mockResponse_prefix :: jsstring where
  "mockResponse_prefix =
       ascii ''I understand you''
       @ [0x27]
       @ ascii ''re asking about: ''
       @ [0x22]"

definition mockResponse_suffix :: jsstring where
  "mockResponse_suffix =
       [0x22]
       @ ascii ''.\<newline>\<newline>Since the backend API is not currently available, I''
       @ [0x27]
       @ ascii ''m showing you a demonstration of the interface. \<newline>\<newline>''
       @ ascii ''## Key Features Demonstrated:\<newline>''
       @ ascii ''- **Markdown rendering**: This response shows how text formatting works\<newline>''
       @ ascii ''- **Code blocks**: Here''
       @ [0x27]
       @ ascii ''s an example:\<newline>\<newline>''
       @ [0x60]
       @ [0x60]
       @ [0x60]
       @ ascii ''javascript\<newline>// Example code with syntax highlighting\<newline>''
       @ ascii ''function processDocument(content) {\<newline>  return content.split(''
       @ [0x27]
       @ [0x5C]
       @ ascii ''n''
       @ [0x27]
       @ ascii '').map(line => ({\<newline>    text: line,\<newline>''
       @ ascii ''    analysis: performAnalysis(line)\<newline>  }));\<newline>}\<newline>''
       @ [0x60]
       @ [0x60]
       @ [0x60]
       @ ascii ''\<newline>\<newline>''
       @ ascii ''- **Reference citations**: This would normally include citations like [1] and [2] when ''
       @ ascii ''connected to a real backend\<newline>''
       @ ascii ''- **Streaming responses**: Text appears progressively as it would from the AI\<newline>''
       @ ascii ''\<newline>To see the full functionality, please start the backend server at ''
       @ [0x60]
       @ ascii ''localhost:8001''
       @ [0x60]
       @ ascii '' and upload a PDF document.''"

definition mockResponse :: "jsstring \<Rightarrow> jsstring" where
  "mockResponse message = mockResponse_prefix @ message @ mockResponse_suffix"

definition not_retrieved :: payload where
  "not_retrieved =
     \<lparr>d_text = None, d_message = None, d_citation_id = None, d_fileId = None,
      d_rank = None, d_page = None, d_previewUrl = None, d_snippet = None,
      d_used_retrieval = Some False\<rparr>"

definition mock_stream :: "jsstring \<Rightarrow> callback list" where
  "mock_stream message =
     map (\<lambda>word. OnToken (Some (word @ ascii '' '')))
         (js_split (mockResponse message) (ascii '' ''))
     @ [OnDone (JObj not_retrieved)]"

text \<open>
  The \<^verbatim>\<open>catch\<close> block: every exception modelled is an \<^verbatim>\<open>Error\<close> object, so its message is
  what \<^verbatim>\<open>onError\<close> gets.
\<close>

definition catch_block :: "jsstring \<Rightarrow> js_error \<Rightarrow> callback list" where
  "catch_block message error =
     (if is_TypeError error \<and> js_includes (error_message error) (ascii ''Failed to fetch'')
      then mock_stream message
      else [OnError (error_message error)])"

text \<open>The callbacks one call of \<^verbatim>\<open>processChatStream\<close> invokes, in order.\<close>

definition processChatStream ::
  "(jsstring \<Rightarrow> json option) \<Rightarrow> jsstring \<Rightarrow> chat_response \<Rightarrow> callback list" where
  "processChatStream parse message response =
     (case response of
        ChatRejected error \<Rightarrow> catch_block message error
      | ChatResponded ok statusText reader \<Rightarrow>
          if \<not> ok then catch_block message (Error (ascii ''Chat request failed: '' @ statusText))
          else
            (case reader of
               None \<Rightarrow> catch_block message (Error (ascii ''No response body''))
             | Some (Body chunks failure) \<Rightarrow>
                 (case read_loop parse [] chunks of
                    (cbs, True) \<Rightarrow> cbs
                  | (cbs, False) \<Rightarrow>
                      (case failure of
                         None \<Rightarrow> cbs
                       | Some error \<Rightarrow> cbs @ catch_block message error))))"

section \<open>Session controller: \<^verbatim>\<open>ChatInterface\<close> (components/ChatInterface.tsx)\<close>

text \<open>
  \<^verbatim>\<open>Reference\<close> and \<^verbatim>\<open>Message\<close>. One record serves the controller's \<^verbatim>\<open>Reference\<close> type and
  the renderer's, where \<^verbatim>\<open>text\<close> and \<^verbatim>\<open>page\<close> are optional. Field names carry the prefixes
  \<open>r_\<close> and \<open>m_\<close>.
\<close>

record reference =
  r_id :: int
  r_text :: "jsstring option"
  r_page :: "int option"
  r_citationId :: "jsstring option"
  r_rank :: "int option"
  r_snippet :: "jsstring option"
  r_previewUrl :: "jsstring option"
  r_fileId :: "jsstring option"

datatype role = User | Assistant

record message =
  m_id :: jsstring
  m_type :: role
  m_content :: jsstring
  m_timestamp :: int
  m_references :: "reference list option"

datatype chat_mode = Single | Global

datatype toast = Success jsstring | Failure jsstring

record abort_controller =
  aborted :: bool

text \<open>
  The state of the component: the \<^verbatim>\<open>useState\<close> values, the \<^verbatim>\<open>useRef\<close> cells, the props
  \<^verbatim>\<open>fileId\<close> and \<^verbatim>\<open>threadId\<close>, the notifications shown so far, and how often the parent's
  \<^verbatim>\<open>onClearChat\<close> has been called. State updates are applied at once (every update of the
  source is a functional update or a constant). \<^verbatim>\<open>abortRef\<close> is created holding \<^verbatim>\<open>null\<close>
  and the source never assigns it.
\<close>

record chat =
  messages :: "message list"
  input :: jsstring
  isTyping :: bool
  chatMode :: chat_mode
  currentResponse :: jsstring
  currentReferences :: "reference list"
  currentResponseRef :: jsstring
  currentReferencesRef :: "reference list"
  citationIdsRef :: "jsstring set"
  abortRef :: "abort_controller option"
  fileId :: "jsstring option"
  threadId :: jsstring
  toasts :: "toast list"
  onClearChat_calls :: nat

definition initialAssistant :: jsstring where
  "initialAssistant = ascii
     ''Hello! I'm your AI assistant. You can chat directly, and if you upload a PDF I can answer with document-grounded citations.''"

definition welcome_message :: "int \<Rightarrow> message" where
  "welcome_message now =
     \<lparr>m_id = ascii ''welcome'', m_type = Assistant, m_content = initialAssistant,
      m_timestamp = now, m_references = None\<rparr>"

definition initial_chat :: "int \<Rightarrow> jsstring option \<Rightarrow> jsstring \<Rightarrow> chat" where
  "initial_chat now fid tid =
     \<lparr>messages = [welcome_message now], input = [], isTyping = False,
      chatMode = (if fid = None \<or> fid = Some [] then Global else Single),
      currentResponse = [], currentReferences = [],
      currentResponseRef = [], currentReferencesRef = [], citationIdsRef = {},
      abortRef = None, fileId = fid, threadId = tid, toasts = [],
      onClearChat_calls = 0\<rparr>"

text \<open>Truthiness of an optional string: \<^verbatim>\<open>undefined\<close>, \<^verbatim>\<open>null\<close> and \<^verbatim>\<open>""\<close> are falsy.\<close>

definition truthy :: "jsstring option \<Rightarrow> bool" where
  "truthy x = (case x of None \<Rightarrow> False | Some s \<Rightarrow> s \<noteq> [])"

definition canSend :: "chat \<Rightarrow> bool" where
  "canSend s =
     (if length (js_trim (input s)) = 0 \<or> isTyping s then False
      else if chatMode s = Single \<and> \<not> truthy (fileId s) then False
      else True)"

text \<open>\<^verbatim>\<open>abortRef.current?.abort()\<close>\<close>

definition abort_current :: "chat \<Rightarrow> chat" where
  "abort_current s =
     (case abortRef s of
        None \<Rightarrow> s
      | Some ac \<Rightarrow> s\<lparr>abortRef := Some (ac\<lparr>aborted := True\<rparr>)\<rparr>)"

text \<open>
  \<^verbatim>\<open>handleSend\<close> up to the call of \<^verbatim>\<open>processChatStream\<close>; \<open>now\<close> is the clock reading
  \<^verbatim>\<open>Date.now()\<close>.
\<close>

definition handleSend :: "int \<Rightarrow> chat \<Rightarrow> chat" where
  "handleSend now s =
     (if \<not> canSend s then s
      else
        (let s1 = abort_current s;
             userMessage = \<lparr>m_id = show_int now, m_type = User, m_content = input s,
                            m_timestamp = now, m_references = None\<rparr>
         in s1\<lparr>messages := messages s1 @ [userMessage],
                input := [],
                isTyping := True,
                currentResponse := [],
                currentReferences := [],
                currentResponseRef := [],
                currentReferencesRef := [],
                citationIdsRef := {}\<rparr>))"

text \<open>
  \<^verbatim>\<open>onToken\<close>: string concatenation; an absent \<^verbatim>\<open>text\<close> property is appended as the text
  \<^verbatim>\<open>undefined\<close>.
\<close>

definition to_text :: "jsstring option \<Rightarrow> jsstring" where
  "to_text tok = (case tok of None \<Rightarrow> ascii ''undefined'' | Some t \<Rightarrow> t)"

definition onToken :: "jsstring option \<Rightarrow> chat \<Rightarrow> chat" where
  "onToken tok s =
     s\<lparr>currentResponse := currentResponse s @ to_text tok,
       currentResponseRef := currentResponseRef s @ to_text tok\<rparr>"

text \<open>
  \<^verbatim>\<open>onCitation\<close>. With a \<^verbatim>\<open>null\<close> payload the first property read throws, before any
  update, and \<^verbatim>\<open>processChatStream\<close> catches it.
\<close>

definition page_text :: "int option \<Rightarrow> jsstring" where
  "page_text p =
     [0x7B2C, 0x20] @ (case p of None \<Rightarrow> ascii ''?'' | Some n \<Rightarrow> show_int n)
       @ [0x20, 0x9875, 0x76F8, 0x5173, 0x5185, 0x5BB9]"

definition onCitation :: "json \<Rightarrow> chat \<Rightarrow> chat" where
  "onCitation data s =
     (case data of
        JNull \<Rightarrow> s
      | JObj c \<Rightarrow>
          if \<not> truthy (d_citation_id c) \<or> the (d_citation_id c) \<in> citationIdsRef s then s
          else
            (let newRef = \<lparr>r_id = int (length (currentReferencesRef s)) + 1,
                           r_text = Some (page_text (d_page c)),
                           r_page = Some (case d_page c of None \<Rightarrow> 0 | Some p \<Rightarrow> p),
                           r_citationId = d_citation_id c,
                           r_rank = d_rank c,
                           r_snippet = d_snippet c,
                           r_previewUrl = d_previewUrl c,
                           r_fileId = d_fileId c\<rparr>
             in s\<lparr>citationIdsRef := insert (the (d_citation_id c)) (citationIdsRef s),
                   currentReferences := currentReferences s @ [newRef],
                   currentReferencesRef := currentReferencesRef s @ [newRef]\<rparr>))"

text \<open>\<^verbatim>\<open>onDone\<close>; the placeholder is the literal of \<^verbatim>\<open>finalResponse || "..."\<close>.\<close>

definition empty_response :: jsstring where
  "empty_response = [0x5F, 0xFF08, 0x7A7A, 0x54CD, 0x5E94, 0xFF09, 0x5F]"

definition used_retrieval :: "json \<Rightarrow> bool" where
  "used_retrieval meta =
     (case meta of JNull \<Rightarrow> False | JObj d \<Rightarrow> d_used_retrieval d = Some True)"

definition onDone :: "int \<Rightarrow> json \<Rightarrow> chat \<Rightarrow> chat" where
  "onDone now meta s =
     (let finalResponse = currentResponseRef s;
          finalRefs = currentReferencesRef s;
          assistantMessage =
            \<lparr>m_id = show_int (now + 1), m_type = Assistant,
             m_content = (if finalResponse = [] then empty_response else finalResponse),
             m_timestamp = now,
             m_references = (if finalRefs = [] then None else Some finalRefs)\<rparr>
      in s\<lparr>messages := messages s @ [assistantMessage],
            isTyping := False,
            currentResponse := [],
            currentReferences := [],
            currentResponseRef := [],
            currentReferencesRef := [],
            citationIdsRef := {},
            toasts := toasts s @
              (if used_retrieval meta
               then [Success (ascii ''Response grounded by document context'')] else [])\<rparr>)"

text \<open>\<^verbatim>\<open>onError\<close>; the prefix is the literal before \<^verbatim>\<open>${errText}\<close>.\<close>

definition error_prefix :: jsstring where
  "error_prefix =
     [0x62B1, 0x6B49, 0xFF0C, 0x5904, 0x7406, 0x4F60, 0x7684, 0x8BF7, 0x6C42, 0x65F6,
      0x51FA, 0x73B0, 0x9519, 0x8BEF, 0xFF1A]"

definition onError :: "int \<Rightarrow> jsstring \<Rightarrow> chat \<Rightarrow> chat" where
  "onError now errText s =
     (let errorMessage =
            \<lparr>m_id = show_int (now + 1), m_type = Assistant,
             m_content = error_prefix @ errText,
             m_timestamp = now, m_references = None\<rparr>
      in s\<lparr>isTyping := False,
            currentResponse := [],
            currentReferences := [],
            currentResponseRef := [],
            currentReferencesRef := [],
            citationIdsRef := {},
            messages := messages s @ [errorMessage],
            toasts := toasts s @ [Failure (ascii ''Failed to get response'')]\<rparr>)"

text \<open>
  A callback of the transport applied to the state, at clock reading \<open>now\<close>, and a
  sequence of them in the order the transport invokes them.
\<close>

fun apply_callback :: "int \<times> callback \<Rightarrow> chat \<Rightarrow> chat" where
  "apply_callback (now, OnCitation data) s = onCitation data s"
| "apply_callback (now, OnToken tok) s = onToken tok s"
| "apply_callback (now, OnDone meta) s = onDone now meta s"
| "apply_callback (now, OnError errText) s = onError now errText s"

fun deliver :: "(int \<times> callback) list \<Rightarrow> chat \<Rightarrow> chat" where
  "deliver [] s = s"
| "deliver (e # es) s = deliver es (apply_callback e s)"

text \<open>\<^verbatim>\<open>clearSession\<close> (services/api.ts): \<open>Inl\<close> is the exception it throws.\<close>

fun clearSession :: "fetch_outcome \<Rightarrow> js_error + unit" where
  "clearSession (Rejected e) = Inl e"
| "clearSession (Responded ok statusText body) =
     (if \<not> ok then Inl (Error (ascii ''Clear session failed: '' @ statusText))
      else (case body of None \<Rightarrow> Inr () | Some e \<Rightarrow> Inl e))"

text \<open>
  \<^verbatim>\<open>clearChat\<close>. The parent's \<^verbatim>\<open>onClearChat\<close> is only counted: \<^verbatim>\<open>App\<close> answers it by
  mounting a fresh \<^verbatim>\<open>ChatInterface\<close>, whose state is \<open>initial_chat\<close>. It is called
  where the messages are reset, and not where \<^verbatim>\<open>clearChat\<close> reports a failure.
\<close>

definition clearChat :: "int \<Rightarrow> fetch_outcome \<Rightarrow> chat \<Rightarrow> chat" where
  "clearChat now outcome s =
     (let s1 = abort_current s
      in case clearSession outcome of
           Inr _ \<Rightarrow>
             s1\<lparr>messages := [welcome_message now],
                onClearChat_calls := Suc (onClearChat_calls s1),
                toasts := toasts s1 @ [Success (ascii ''Chat history cleared'')]\<rparr>
         | Inl error \<Rightarrow>
             if is_TypeError error \<and> js_includes (error_string error) (ascii ''Failed to fetch'')
             then s1\<lparr>messages := [welcome_message now],
                     onClearChat_calls := Suc (onClearChat_calls s1),
                     toasts := toasts s1 @ [Success (ascii ''Chat history cleared (Local)'')]\<rparr>
             else s1\<lparr>toasts := toasts s1 @ [Failure (ascii ''Failed to clear chat history'')]\<rparr>)"


section \<open>Image addresses: \<^verbatim>\<open>MarkdownRenderer\<close> (components/MarkdownRenderer.tsx)\<close>











section \<open>The address of an extracted image: \<^verbatim>\<open>getExtractedImageUrl\<close> (services/api.ts)\<close>










section \<open>The sanitizing schema\<close>

text \<open>
  \<^verbatim>\<open>sanitizeSchema.protocols\<close>: the table of the default schema, which is not among the
  sources and is a parameter, with the entries for \<^verbatim>\<open>src\<close> and \<^verbatim>\<open>href\<close> replaced.
\<close>

definition sanitizeSchema_protocols ::
  "(jsstring \<Rightarrow> jsstring list option) \<Rightarrow> jsstring \<Rightarrow> jsstring list option" where
  "sanitizeSchema_protocols defaultSchema_protocols prop =
     (if prop = ascii ''href''
        then Some [ascii ''http'', ascii ''https'', ascii ''mailto'', ascii ''tel'']
      else if prop = ascii ''src''
        then Some [ascii ''http'', ascii ''https'', ascii ''data'', ascii ''blob'']
      else defaultSchema_protocols prop)"

text \<open>
  Modelled from the spec: the address filter of the sanitizing stage, which the library
  \<^verbatim>\<open>rehype-sanitize\<close> implements and the sources only configure. The scheme of an address is
  the text before its first colon, when that colon comes before any \<^verbatim>\<open>/\<close>, \<^verbatim>\<open>?\<close> or \<^verbatim>\<open>#\<close>;
  an address with a scheme outside the allowlist of its attribute is dropped (\<open>None\<close>),
  never raised as an error, and every other address is kept as it is.
\<close>

fun scheme_of :: "jsstring \<Rightarrow> jsstring option" where
  "scheme_of [] = None"
| "scheme_of (c # cs) =
     (if c = 0x3A then Some []
      else if c = 0x2F \<or> c = 0x3F \<or> c = 0x23 then None
      else map_option ((#) c) (scheme_of cs))"

definition sanitize_address ::
  "(jsstring \<Rightarrow> jsstring list option) \<Rightarrow> jsstring \<Rightarrow> jsstring \<Rightarrow> jsstring option" where
  "sanitize_address protocols prop address =
     (case protocols prop of
        None \<Rightarrow> Some address
      | Some allowed \<Rightarrow>
          (case scheme_of address of
             None \<Rightarrow> Some address
           | Some scheme \<Rightarrow> if scheme \<in> set allowed then Some address else None))"

section \<open>Notions used to state the properties\<close>

text \<open>
  The events of a turn before its end: a Token event is \<^verbatim>\<open>onToken\<close> called with a text, a
  Citation event is \<^verbatim>\<open>onCitation\<close>. The text of a turn is the concatenation of the texts
  of its Token events, in arrival order.
\<close>

fun stream_event :: "callback \<Rightarrow> bool" where
  "stream_event (OnToken (Some t)) = True"
| "stream_event (OnCitation c) = True"
| "stream_event _ = False"

fun token_text :: "callback \<Rightarrow> jsstring" where
  "token_text (OnToken (Some t)) = t"
| "token_text _ = []"

definition turn_text :: "(int \<times> callback) list \<Rightarrow> jsstring" where
  "turn_text evs = concat (map (\<lambda>e. token_text (snd e)) evs)"

text \<open>
  The non-empty citation identifiers of a turn, in arrival order, and a list without its
  repetitions, each element at its first occurrence.
\<close>

fun citation_ids :: "callback \<Rightarrow> jsstring list" where
  "citation_ids (OnCitation (JObj c)) =
     (if truthy (d_citation_id c) then [the (d_citation_id c)] else [])"
| "citation_ids _ = []"

definition turn_ids :: "(int \<times> callback) list \<Rightarrow> jsstring list" where
  "turn_ids evs = concat (map (\<lambda>e. citation_ids (snd e)) evs)"

definition first_seen :: "'a list \<Rightarrow> 'a list" where
  "first_seen xs = rev (remdups (rev xs))"

definition committed_references :: "message \<Rightarrow> reference list" where
  "committed_references m = (case m_references m of None \<Rightarrow> [] | Some rs \<Rightarrow> rs)"

text \<open>The seen-set and the reference list as the code grows them, on identifiers alone.\<close>

fun add_ids :: "jsstring list \<Rightarrow> jsstring list \<Rightarrow> jsstring list" where
  "add_ids seen [] = seen"
| "add_ids seen (x # xs) =
     (if x \<in> set seen then add_ids seen xs else add_ids (seen @ [x]) xs)"

definition refs_ok :: "chat \<Rightarrow> jsstring list \<Rightarrow> bool" where
  "refs_ok s ids \<longleftrightarrow>
     map r_citationId (currentReferencesRef s) = map Some ids \<and>
     citationIdsRef s = set ids \<and>
     map r_id (currentReferencesRef s) = map int [1..<Suc (length ids)]"

text \<open>
  The exception a chat request raises before any text of the response has been
  received, if it raises one.
\<close>

fun thrown_before_first_byte :: "chat_response \<Rightarrow> js_error option" where
  "thrown_before_first_byte (ChatRejected error) = Some error"
| "thrown_before_first_byte (ChatResponded ok statusText reader) =
     (if \<not> ok then Some (Error (ascii ''Chat request failed: '' @ statusText))
      else
        (case reader of
           None \<Rightarrow> Some (Error (ascii ''No response body''))
         | Some (Body chunks failure) \<Rightarrow> if concat chunks = [] then failure else None))"





text \<open>Whether \<^verbatim>\<open>clearChat\<close> resets the messages, by the outcome of \<^verbatim>\<open>clearSession\<close>.\<close>

definition unreachable :: "js_error \<Rightarrow> bool" where
  "unreachable error \<longleftrightarrow>
     is_TypeError error \<and> js_includes (error_string error) (ascii ''Failed to fetch'')"


section \<open>Example data\<close>

definition no_fields :: payload where
  "no_fields =
     \<lparr>d_text = None, d_message = None, d_citation_id = None, d_fileId = None,
      d_rank = None, d_page = None, d_previewUrl = None, d_snippet = None,
      d_used_retrieval = None\<rparr>"

definition citing :: "string \<Rightarrow> int \<Rightarrow> string \<Rightarrow> callback" where
  "citing cid p fid =
     OnCitation (JObj (no_fields\<lparr>d_citation_id := Some (ascii cid), d_page := Some p,
                                 d_fileId := Some (ascii fid)\<rparr>))"

definition asking :: "string \<Rightarrow> chat" where
  "asking question = (initial_chat 0 None (ascii ''default''))\<lparr>input := ascii question\<rparr>"

definition install_events :: "(int \<times> callback) list" where
  "install_events =
     [(6, citing ''c1'' 3 ''f1''),
      (7, OnToken (Some (ascii ''Connect ''))),
      (8, OnToken (Some (ascii ''the ''))),
      (9, OnToken (Some (ascii ''cable.'')))]"

definition repeated_events :: "(int \<times> callback) list" where
  "repeated_events =
     [(6, citing ''c1'' 3 ''f1''),
      (7, OnToken (Some (ascii ''See ''))),
      (8, citing ''c2'' 5 ''f1''),
      (9, citing ''c1'' 3 ''f1''),
      (10, citing '''' 4 ''f1'')]"




definition no_parse :: "jsstring \<Rightarrow> json option" where
  "no_parse eventData = None"

text \<open>
  A response that ends after a complete token block and a done block without the blank
  line that would complete it, cut into two chunks inside the delimiter of the first;
  and a decoder for the two payloads in it.
\<close>

definition demo_parse :: "jsstring \<Rightarrow> json option" where
  "demo_parse eventData =
     (if eventData = ascii ''{\"text\":\"Hi\"}'' then Some (JObj (no_fields\<lparr>d_text := Some (ascii ''Hi'')\<rparr>))
      else if eventData = ascii ''{}'' then Some (JObj no_fields)
      else None)"

definition cut_short :: "jsstring list" where
  "cut_short =
     [ascii ''event: token\<newline>data: {\"text\":\"Hi\"}\<newline>'',
      ascii ''\<newline>event: done\<newline>data: {}'']"

section \<open>Facts about splitting\<close>

lemma split_at_nonempty: "split_at sep s \<noteq> []"
  by (induction sep s rule: split_at.induct) (auto split: list.splits)

lemma split_at_short: "length s < length sep \<Longrightarrow> split_at sep s = [s]"
proof (induction s)
  case Nil then show ?case by simp
next
  case (Cons c cs)
  then have "\<not> startsWith (c # cs) sep"
    by (auto simp: startsWith_def)
  with Cons show ?case by simp
qed

lemma split_at_single: "split_at sep s = [p] \<Longrightarrow> p = s"
  by (induction sep s arbitrary: p rule: split_at.induct)
     (auto split: if_splits list.splits simp: split_at_nonempty)

lemma split_at_last_idem:
  "split_at sep (last (split_at sep s)) = [last (split_at sep s)]"
proof (induction sep s rule: split_at.induct)
  case (1 sep) show ?case by simp
next
  case (2 sep c cs)
  show ?case
  proof (cases "sep \<noteq> [] \<and> startsWith (c # cs) sep")
    case True
    with 2 show ?thesis by (simp add: split_at_nonempty)
  next
    case False
    obtain p ps where ps: "split_at sep cs = p # ps"
      using split_at_nonempty by (cases "split_at sep cs") auto
    show ?thesis
    proof (cases ps)
      case Nil
      with ps have "p = cs" using split_at_single by blast
      with False ps Nil show ?thesis by auto
    next
      case (Cons q qs)
      with False ps 2 show ?thesis by auto
    qed
  qed
qed

lemma startsWith_length: "startsWith s p \<Longrightarrow> length p \<le> length s"
  unfolding startsWith_def by (metis length_take min.cobounded1)

lemma startsWith_append:
  "length p \<le> length s \<Longrightarrow> startsWith (s @ t) p = startsWith s p"
  by (simp add: startsWith_def)

text \<open>
  Splitting a string that arrives in two parts: the complete pieces of the first part
  stay, and the scan goes on from its incomplete last piece.
\<close>

lemma split_at_append:
  "split_at sep (s @ t) =
     butlast (split_at sep s) @ split_at sep (last (split_at sep s) @ t)"
proof (induction sep s rule: split_at.induct)
  case (1 sep) show ?case by simp
next
  case (2 sep c cs)
  show ?case
  proof (cases "sep \<noteq> [] \<and> startsWith (c # cs) sep")
    case True
    then have len: "length sep \<le> length (c # cs)"
      using startsWith_length by blast
    with True have m: "startsWith ((c # cs) @ t) sep"
      using startsWith_append by blast
    have d: "drop (length sep) ((c # cs) @ t) = drop (length sep) (c # cs) @ t"
      using len drop_append[of "length sep" "c # cs" t] by simp
    have "split_at sep ((c # cs) @ t) = [] # split_at sep (drop (length sep) (c # cs) @ t)"
      using True m d by (metis append_Cons split_at.simps(2))
    also have "\<dots> = [] # (butlast (split_at sep (drop (length sep) (c # cs))) @
        split_at sep (last (split_at sep (drop (length sep) (c # cs))) @ t))"
      using 2(1)[OF True] by simp
    finally show ?thesis using True by (simp add: split_at_nonempty)
  next
    case False
    obtain p ps where ps: "split_at sep cs = p # ps"
      using split_at_nonempty by (cases "split_at sep cs") auto
    have ih: "split_at sep (cs @ t) =
       butlast (split_at sep cs) @ split_at sep (last (split_at sep cs) @ t)"
      using 2(2)[OF False] .
    show ?thesis
    proof (cases "sep \<noteq> [] \<and> startsWith ((c # cs) @ t) sep")
      case True
      with False have "length (c # cs) < length sep"
        using startsWith_append by (metis not_le_imp_less)
      then have "split_at sep (c # cs) = [c # cs]"
        by (rule split_at_short)
      then show ?thesis by simp
    next
      case F2: False
      show ?thesis
      proof (cases ps)
        case Nil
        with ps have pcs: "p = cs" using split_at_single by blast
        have l: "split_at sep (c # cs) = [c # cs]"
          using False ps Nil pcs by auto
        show ?thesis unfolding l by simp
      next
        case (Cons q qs)
        have l: "split_at sep (c # cs) = (c # p) # q # qs"
          using False ps Cons by auto
        have r: "split_at sep (cs @ t) =
            p # (butlast (q # qs) @ split_at sep (last (q # qs) @ t))"
          using ih ps Cons by simp
        have "split_at sep ((c # cs) @ t) =
            (c # p) # (butlast (q # qs) @ split_at sep (last (q # qs) @ t))"
          using F2 r by auto
        then show ?thesis unfolding l by simp
      qed
    qed
  qed
qed


section \<open>Facts about the read loop\<close>

lemma process_events_append:
  "process_events parse (xs @ ys) =
     (case process_events parse xs of
        (cbs, True) \<Rightarrow> (cbs, True)
      | (cbs, False) \<Rightarrow>
          (case process_events parse ys of (cbs', r) \<Rightarrow> (cbs @ cbs', r)))"
  by (induction xs) (auto split: prod.splits bool.splits)

text \<open>
  The loop, started from a buffer that holds no complete block, does what one pass over
  the complete blocks of the whole text would do; the last piece is never processed.
\<close>

lemma read_loop_whole:
  assumes "sep = ascii ''\<newline>\<newline>''" and "split_at sep buffer = [buffer]"
  shows "read_loop parse buffer chunks =
           process_events parse (butlast (split_at sep (buffer @ concat chunks)))"
  using assms(2)
proof (induction chunks arbitrary: buffer)
  case Nil
  then show ?case by simp
next
  case (Cons chunk chunks)
  have ne: "sep \<noteq> []" using assms(1) by (simp add: ascii_def)
  let ?ev = "split_at sep (buffer @ chunk)"
  have js: "js_split (buffer @ chunk) (ascii ''\<newline>\<newline>'') = ?ev"
    using ne assms(1) by (simp add: js_split_def)
  have idem: "split_at sep (last ?ev) = [last ?ev]"
    by (rule split_at_last_idem)
  have whole: "split_at sep (buffer @ concat (chunk # chunks)) =
      butlast ?ev @ split_at sep (last ?ev @ concat chunks)"
    using split_at_append[of sep "buffer @ chunk" "concat chunks"] by simp
  have bl: "butlast (split_at sep (buffer @ concat (chunk # chunks))) =
      butlast ?ev @ butlast (split_at sep (last ?ev @ concat chunks))"
    unfolding whole by (simp add: butlast_append split_at_nonempty)
  show ?case
    unfolding bl process_events_append
    using Cons.IH[OF idem] js
    by (simp split: prod.splits bool.splits)
qed


section \<open>Facts about the controller\<close>

lemma deliver_append: "deliver (xs @ ys) s = deliver ys (deliver xs s)"
  by (induction xs arbitrary: s) auto

lemma stream_event_nonterminal: "stream_event cb \<Longrightarrow> \<not> is_terminal cb"
  by (cases cb) auto

lemma apply_nonterminal_frame:
  "\<not> is_terminal cb \<Longrightarrow>
     messages (apply_callback (t, cb) s) = messages s \<and>
     isTyping (apply_callback (t, cb) s) = isTyping s \<and>
     toasts (apply_callback (t, cb) s) = toasts s"
  by (cases cb) (auto simp: onToken_def onCitation_def Let_def split: json.splits)

lemma deliver_nonterminal_frame:
  "\<forall>e\<in>set evs. \<not> is_terminal (snd e) \<Longrightarrow>
     messages (deliver evs s) = messages s \<and>
     isTyping (deliver evs s) = isTyping s \<and>
     toasts (deliver evs s) = toasts s"
proof (induction evs arbitrary: s)
  case Nil then show ?case by simp
next
  case (Cons e evs)
  obtain t cb where e: "e = (t, cb)" by (cases e)
  with Cons.prems have "\<not> is_terminal cb" by simp
  from apply_nonterminal_frame[OF this] Cons e show ?case by simp
qed

lemma apply_stream_event_text:
  "stream_event cb \<Longrightarrow>
     currentResponseRef (apply_callback (t, cb) s) = currentResponseRef s @ token_text cb"
  by (cases cb rule: stream_event.cases)
     (auto simp: onToken_def onCitation_def to_text_def Let_def split: json.splits)

lemma deliver_stream_text:
  "\<forall>e\<in>set evs. stream_event (snd e) \<Longrightarrow>
     currentResponseRef (deliver evs s) = currentResponseRef s @ turn_text evs"
proof (induction evs arbitrary: s)
  case Nil then show ?case by (simp add: turn_text_def)
next
  case (Cons e evs)
  obtain t cb where e: "e = (t, cb)" by (cases e)
  with Cons.prems have "stream_event cb" by simp
  from apply_stream_event_text[OF this] Cons e show ?case
    by (simp add: turn_text_def)
qed

lemma handleSend_started:
  "canSend s \<Longrightarrow>
     messages (handleSend now s) = messages s @
        [\<lparr>m_id = show_int now, m_type = User, m_content = input s,
          m_timestamp = now, m_references = None\<rparr>] \<and>
     isTyping (handleSend now s) \<and>
     currentResponseRef (handleSend now s) = [] \<and>
     currentReferencesRef (handleSend now s) = [] \<and>
     citationIdsRef (handleSend now s) = {}"
  by (simp add: handleSend_def Let_def abort_current_def split: option.splits)

lemma empty_response_nonempty: "empty_response \<noteq> []"
  by (simp add: empty_response_def)

lemma onDone_messages:
  "messages (onDone t meta s) = messages s @
     [\<lparr>m_id = show_int (t + 1), m_type = Assistant,
       m_content = (if currentResponseRef s = [] then empty_response
                    else currentResponseRef s),
       m_timestamp = t,
       m_references = (if currentReferencesRef s = [] then None
                       else Some (currentReferencesRef s))\<rparr>]"
  by (simp add: onDone_def Let_def)

lemma add_ids_append: "add_ids seen (xs @ ys) = add_ids (add_ids seen xs) ys"
  by (induction xs arbitrary: seen) auto

lemma remdups_snoc:
  "remdups (ys @ [x]) = filter (\<lambda>y. y \<noteq> x) (remdups ys) @ [x]"
  by (induction ys) auto

lemma first_seen_Cons:
  "first_seen (x # xs) = x # first_seen (filter (\<lambda>y. y \<noteq> x) xs)"
  by (simp add: first_seen_def remdups_snoc remdups_filter rev_filter)

lemma add_ids_first_seen:
  "add_ids seen xs = seen @ first_seen (filter (\<lambda>x. x \<notin> set seen) xs)"
proof (induction xs arbitrary: seen)
  case Nil then show ?case by (simp add: first_seen_def)
next
  case (Cons x xs)
  show ?case
  proof (cases "x \<in> set seen")
    case True
    with Cons show ?thesis by simp
  next
    case False
    have "filter (\<lambda>y. y \<notin> set (seen @ [x])) xs =
          filter (\<lambda>y. y \<noteq> x) (filter (\<lambda>y. y \<notin> set seen) xs)"
      by (induction xs) auto
    with False Cons[of "seen @ [x]"] show ?thesis
      by (simp add: first_seen_Cons)
  qed
qed

lemma first_seen_length: "length (first_seen xs) = card (set xs)"
  by (simp add: first_seen_def length_remdups_card_conv)

lemma refs_ok_step:
  assumes "refs_ok s ids" and "\<not> is_terminal cb"
  shows "refs_ok (apply_callback (t, cb) s) (add_ids ids (citation_ids cb))"
proof (cases cb)
  case (OnCitation data)
  show ?thesis
  proof (cases data)
    case JNull
    with OnCitation assms show ?thesis by (simp add: onCitation_def)
  next
    case (JObj c)
    have len: "length (currentReferencesRef s) = length ids"
      using assms(1) unfolding refs_ok_def by (metis length_map)
    with JObj OnCitation assms show ?thesis
      by (auto simp: onCitation_def refs_ok_def Let_def truthy_def split: option.splits)
  qed
next
  case (OnToken tok)
  with assms show ?thesis
    by (cases tok) (simp_all add: onToken_def refs_ok_def)
next
  case (OnDone m) with assms show ?thesis by simp
next
  case (OnError m) with assms show ?thesis by simp
qed

lemma refs_ok_deliver:
  assumes "\<forall>e\<in>set evs. \<not> is_terminal (snd e)" and "refs_ok s ids"
  shows "refs_ok (deliver evs s) (add_ids ids (turn_ids evs))"
  using assms
proof (induction evs arbitrary: s ids)
  case Nil then show ?case by (simp add: turn_ids_def)
next
  case (Cons e evs)
  obtain t cb where e: "e = (t, cb)" by (cases e)
  with Cons.prems have nt: "\<not> is_terminal cb" by simp
  have "refs_ok (apply_callback (t, cb) s) (add_ids ids (citation_ids cb))"
    using refs_ok_step[OF Cons.prems(2) nt] .
  from Cons.IH[OF _ this] Cons.prems(1) e show ?case
    by (simp add: turn_ids_def add_ids_append)
qed

lemma refs_ok_first_seen:
  assumes "canSend s" and "\<forall>e\<in>set evs. \<not> is_terminal (snd e)"
  shows "refs_ok (deliver evs (handleSend now s)) (first_seen (turn_ids evs))"
proof -
  have "refs_ok (handleSend now s) []"
    using handleSend_started[OF assms(1), of now] by (simp add: refs_ok_def)
  from refs_ok_deliver[OF assms(2) this] show ?thesis
    by (simp add: add_ids_first_seen)
qed

lemma canSend_asking: "canSend (asking ''How to install?'')"
  by (simp add: canSend_def asking_def initial_chat_def js_trim_def js_whitespace_def
      ascii_def)

lemma turn_ids_repeated:
  "turn_ids repeated_events = [ascii ''c1'', ascii ''c2'', ascii ''c1'']"
  by (simp add: turn_ids_def repeated_events_def citing_def no_fields_def truthy_def ascii_def)

lemma first_seen_repeated:
  "first_seen (turn_ids repeated_events) = [ascii ''c1'', ascii ''c2'']"
  unfolding turn_ids_repeated by (simp add: first_seen_def ascii_def)


lemma canSend_hi: "canSend (asking ''hi'')"
  by (simp add: canSend_def asking_def initial_chat_def js_trim_def js_whitespace_def
      ascii_def)

lemma messages_hi:
  "messages (handleSend 5 (asking ''hi'')) =
     [welcome_message 0,
      \<lparr>m_id = show_int 5, m_type = User, m_content = ascii ''hi'', m_timestamp = 5,
       m_references = None\<rparr>]"
  using handleSend_started[OF canSend_hi, of 5]
  by (simp add: asking_def initial_chat_def)

lemma clearChat_messages:
  "messages (clearChat now outcome s) =
     (case clearSession outcome of
        Inr u \<Rightarrow> [welcome_message now]
      | Inl error \<Rightarrow> if unreachable error then [welcome_message now] else messages s)"
  by (simp add: clearChat_def unreachable_def abort_current_def Let_def
      split: sum.splits option.splits)

lemma unreachable_Failed_to_fetch: "unreachable (TypeError (ascii ''Failed to fetch''))"
  by (simp add: unreachable_def error_string_def ascii_def startsWith_def)

section \<open>Facts about failures of the request\<close>

lemma read_loop_no_text:
  assumes "concat chunks = []"
  shows "read_loop parse [] chunks = ([], False)"
proof -
  have "read_loop parse [] chunks =
      process_events parse (butlast (split_at (ascii ''\<newline>\<newline>'') ([] @ concat chunks)))"
    by (rule read_loop_whole) simp_all
  then show ?thesis unfolding assms by simp
qed

lemma catch_block_error:
  "\<not> (is_TypeError error \<and> js_includes (error_message error) (ascii ''Failed to fetch''))
   \<Longrightarrow> catch_block message error = [OnError (error_message error)]"
  by (auto simp: catch_block_def)

lemma processChatStream_thrown:
  assumes "thrown_before_first_byte response = Some error"
  shows "processChatStream parse message response = catch_block message error"
proof (cases response)
  case (ChatRejected e)
  with assms show ?thesis by (simp add: processChatStream_def)
next
  case (ChatResponded ok statusText reader)
  show ?thesis
  proof (cases reader)
    case None
    with ChatResponded assms show ?thesis
      by (auto simp: processChatStream_def split: if_splits)
  next
    case (Some b)
    obtain chunks failure where b: "b = Body chunks failure" by (cases b)
    show ?thesis
    proof (cases ok)
      case False
      with ChatResponded assms show ?thesis by (simp add: processChatStream_def)
    next
      case True
      with ChatResponded Some b assms have e: "concat chunks = []" and f: "failure = Some error"
        by (auto split: if_splits)
      from read_loop_no_text[OF e] have "read_loop parse [] chunks = ([], False)" .
      with ChatResponded Some b True f show ?thesis
        by (simp add: processChatStream_def)
    qed
  qed
qed

lemma join_split_at:
  "concat (map (\<lambda>w. w @ sep) (split_at sep s)) = s @ sep"
proof (induction sep s rule: split_at.induct)
  case (1 sep) show ?case by simp
next
  case (2 sep c cs)
  show ?case
  proof (cases "sep \<noteq> [] \<and> startsWith (c # cs) sep")
    case True
    then have "sep @ drop (length sep) (c # cs) = c # cs"
      unfolding startsWith_def by (metis append_take_drop_id)
    with True 2(1)[OF True] show ?thesis
      by simp
  next
    case False
    obtain p ps where ps: "split_at sep cs = p # ps"
      using split_at_nonempty by (cases "split_at sep cs") auto
    with False 2(2)[OF False] show ?thesis by auto
  qed
qed

lemma deliver_tokens:
  "currentResponseRef (deliver (map (\<lambda>w. (t, OnToken (Some (f w)))) ws) s) =
     currentResponseRef s @ concat (map f ws)
   \<and> messages (deliver (map (\<lambda>w. (t, OnToken (Some (f w)))) ws) s) = messages s"
  by (induction ws arbitrary: s) (simp_all add: onToken_def to_text_def)

lemma deliver_mock_stream:
  assumes "currentResponseRef s = []"
  shows "m_content (last (messages (deliver (map (Pair t) (mock_stream message)) s))) =
           mockResponse message @ ascii '' ''"
proof -
  let ?ws = "js_split (mockResponse message) (ascii '' '')"
  let ?s1 = "deliver (map (\<lambda>w. (t, OnToken (Some (w @ ascii '' '')))) ?ws) s"
  have sp: "?ws = split_at (ascii '' '') (mockResponse message)"
    by (simp add: js_split_def ascii_def)
  have "currentResponseRef ?s1 = concat (map (\<lambda>w. w @ ascii '' '') ?ws)"
    using deliver_tokens[of t "\<lambda>w. w @ ascii '' ''" ?ws s] assms by simp
  then have r: "currentResponseRef ?s1 = mockResponse message @ ascii '' ''"
    unfolding sp by (simp add: join_split_at)
  have "deliver (map (Pair t) (mock_stream message)) s = onDone t (JObj not_retrieved) ?s1"
    by (simp add: mock_stream_def deliver_append comp_def)
  then show ?thesis using r by (simp add: onDone_messages ascii_def)
qed

section \<open>Facts about the end of the stream\<close>

lemma dispatch_nonterminal:
  "dispatch parse eventType eventData = (cbs, False) \<Longrightarrow> \<forall>cb\<in>set cbs. \<not> is_terminal cb"
  by (auto simp: dispatch_def split: option.splits if_splits json.splits)

lemma handle_event_nonterminal:
  "handle_event parse event = (cbs, False) \<Longrightarrow> \<forall>cb\<in>set cbs. \<not> is_terminal cb"
  using dispatch_nonterminal
  by (auto simp: handle_event_def Let_def split: if_splits prod.splits)

lemma process_events_nonterminal:
  "process_events parse events = (cbs, False) \<Longrightarrow> \<forall>cb\<in>set cbs. \<not> is_terminal cb"
proof (induction events arbitrary: cbs)
  case Nil then show ?case by simp
next
  case (Cons event events)
  obtain a r where h: "handle_event parse event = (a, r)" by (cases "handle_event parse event")
  obtain b r' where p: "process_events parse events = (b, r')"
    by (cases "process_events parse events")
  from Cons.prems h p have r: "r = False" and r': "r' = False" and cbs: "cbs = a @ b"
    by (auto split: bool.splits)
  from handle_event_nonterminal h r have "\<forall>cb\<in>set a. \<not> is_terminal cb" by blast
  moreover from Cons.IH p r' have "\<forall>cb\<in>set b. \<not> is_terminal cb" by blast
  ultimately show ?case using cbs by auto
qed

lemma read_loop_from_start:
  "read_loop parse [] chunks =
     process_events parse (butlast (js_split (concat chunks) (ascii ''\<newline>\<newline>'')))"
proof -
  have "read_loop parse [] chunks =
      process_events parse (butlast (split_at (ascii ''\<newline>\<newline>'') ([] @ concat chunks)))"
    by (rule read_loop_whole) simp_all
  then show ?thesis by (simp add: js_split_def ascii_def)
qed

lemma read_loop_cut_short:
  "read_loop demo_parse [] cut_short = ([OnToken (Some (ascii ''Hi''))], False)"
  by (simp add: cut_short_def demo_parse_def js_split_def handle_event_def dispatch_def
      startsWith_def js_trim_def js_whitespace_def no_fields_def ascii_def)

section \<open>Facts about image addresses\<close>












lemma example_schemes:
  "scheme_of (ascii ''javascript:alert(1)'') = Some (ascii ''javascript'')
   \<and> scheme_of (ascii ''https://example.org/a.png'') = Some (ascii ''https'')
   \<and> scheme_of (ascii ''data:image/png;base64,AAAA'') = Some (ascii ''data'')"
  by (simp add: ascii_def)

section \<open>Chunk boundaries do not change the events\<close>

text \<open>
  Claim C4. However the text of the response is cut into chunks, \<^verbatim>\<open>processChatStream\<close>
  invokes the same callbacks in the same order, and returns early or not, as it does when
  the whole text arrives as one chunk: a block cut by a chunk boundary stays in the buffer
  until a later chunk completes it, and no event is lost or doubled at a boundary. What
  is emitted is what one pass over the delimited blocks of the whole text emits; the
  piece after the last delimiter, a partial block, is never looked at.
\<close>

theorem chunking_invariant:
  "read_loop parse [] chunks = read_loop parse [] [concat chunks]
   \<and> read_loop parse [] chunks =
       process_events parse (butlast (js_split (concat chunks) (ascii ''\<newline>\<newline>'')))"
proof -
  have "read_loop parse [] chunks =
      process_events parse (butlast (split_at (ascii ''\<newline>\<newline>'') ([] @ concat chunks)))"
    by (rule read_loop_whole) simp_all
  moreover have "read_loop parse [] [concat chunks] =
      process_events parse (butlast (split_at (ascii ''\<newline>\<newline>'') ([] @ concat [concat chunks])))"
    by (rule read_loop_whole) simp_all
  ultimately show ?thesis
    using read_loop_from_start[of parse chunks] by simp
qed


section \<open>Committing a turn\<close>

text \<open>
  Claim C1. A turn starts with \<^verbatim>\<open>handleSend\<close>, receives Token and Citation events, and ends
  with a Done event. The controller then has appended exactly the user's message and one
  assistant message, whose content is the concatenation, in arrival order, of the texts
  of the Token events of the turn; when that concatenation is empty the content is the
  placeholder, which is not the empty string.
\<close>

theorem done_commits_token_text:
  assumes "canSend s" and "\<forall>e\<in>set evs. stream_event (snd e)"
  shows "butlast (messages (deliver (evs @ [(t, OnDone meta)]) (handleSend now s))) =
           messages s @
             [\<lparr>m_id = show_int now, m_type = User, m_content = input s,
               m_timestamp = now, m_references = None\<rparr>]
       \<and> m_type (last (messages (deliver (evs @ [(t, OnDone meta)]) (handleSend now s)))) =
           Assistant
       \<and> m_content (last (messages (deliver (evs @ [(t, OnDone meta)]) (handleSend now s)))) =
           (if turn_text evs = [] then empty_response else turn_text evs)
       \<and> empty_response \<noteq> []"
proof -
  let ?s1 = "handleSend now s"
  let ?s2 = "deliver evs ?s1"
  have nt: "\<forall>e\<in>set evs. \<not> is_terminal (snd e)"
    using assms(2) stream_event_nonterminal by blast
  have m: "messages ?s2 = messages ?s1"
    using deliver_nonterminal_frame[OF nt] by simp
  have r: "currentResponseRef ?s2 = turn_text evs"
    using deliver_stream_text[OF assms(2), of ?s1] handleSend_started[OF assms(1)] by simp
  show ?thesis
    using m r handleSend_started[OF assms(1), of now] empty_response_nonempty
    by (simp add: deliver_append onDone_messages butlast_append)
qed

theorem done_commits_token_text_witness:
  "canSend (asking ''How to install?'')
   \<and> m_content (last (messages (deliver (install_events @ [(10, OnDone (JObj no_fields))])
                                   (handleSend 5 (asking ''How to install?''))))) =
       ascii ''Connect the cable.''"
proof -
  have c: "canSend (asking ''How to install?'')"
    by (rule canSend_asking)
  have e: "\<forall>e\<in>set install_events. stream_event (snd e)"
    by (simp add: install_events_def citing_def)
  have t: "turn_text install_events = ascii ''Connect the cable.''"
    by (simp add: turn_text_def install_events_def citing_def ascii_def)
  from done_commits_token_text[OF c e, of 10 "JObj no_fields" 5] c t show ?thesis
    by (simp add: ascii_def)
qed

text \<open>
  Claim C2. A Citation event whose identifier is empty, absent or already seen changes
  nothing. Any other Citation event adds its identifier to the seen-set and appends one
  reference, whose display index is the previous number of references plus one. So the
  references committed at the end of a turn are as many as the distinct non-empty
  identifiers of the turn, they carry these identifiers in first-seen order, and their
  display indices are 1, 2, ..., n.
\<close>

theorem citations_deduplicated:
  assumes "canSend s" and "\<forall>e\<in>set evs. \<not> is_terminal (snd e)"
  shows "(\<not> truthy (d_citation_id c) \<or> the (d_citation_id c) \<in> citationIdsRef s0
            \<longrightarrow> onCitation (JObj c) s0 = s0)
       \<and> (truthy (d_citation_id c) \<and> the (d_citation_id c) \<notin> citationIdsRef s0
            \<longrightarrow> citationIdsRef (onCitation (JObj c) s0) =
                  insert (the (d_citation_id c)) (citationIdsRef s0)
              \<and> butlast (currentReferencesRef (onCitation (JObj c) s0)) = currentReferencesRef s0
              \<and> r_id (last (currentReferencesRef (onCitation (JObj c) s0))) =
                  int (length (currentReferencesRef s0)) + 1
              \<and> r_citationId (last (currentReferencesRef (onCitation (JObj c) s0))) =
                  d_citation_id c)
       \<and> (let refs = committed_references
                 (last (messages (deliver (evs @ [(t, OnDone meta)]) (handleSend now s))))
          in length refs = card (set (turn_ids evs))
           \<and> map r_citationId refs = map Some (first_seen (turn_ids evs))
           \<and> map r_id refs = map int [1..<Suc (length refs)])"
proof -
  let ?s2 = "deliver evs (handleSend now s)"
  let ?final = "deliver (evs @ [(t, OnDone meta)]) (handleSend now s)"
  have ok: "refs_ok ?s2 (first_seen (turn_ids evs))"
    using refs_ok_first_seen[OF assms] .
  have c: "committed_references (last (messages ?final)) = currentReferencesRef ?s2"
    by (simp add: deliver_append onDone_messages committed_references_def)
  have len: "length (currentReferencesRef ?s2) = length (first_seen (turn_ids evs))"
    using ok unfolding refs_ok_def by (metis length_map)
  have p3: "let refs = committed_references (last (messages ?final))
          in length refs = card (set (turn_ids evs))
           \<and> map r_citationId refs = map Some (first_seen (turn_ids evs))
           \<and> map r_id refs = map int [1..<Suc (length refs)]"
    unfolding c Let_def using ok len
    by (simp add: refs_ok_def first_seen_length)
  have p1: "\<not> truthy (d_citation_id c) \<or> the (d_citation_id c) \<in> citationIdsRef s0
            \<longrightarrow> onCitation (JObj c) s0 = s0"
    by (simp add: onCitation_def)
  have p2: "truthy (d_citation_id c) \<and> the (d_citation_id c) \<notin> citationIdsRef s0
            \<longrightarrow> citationIdsRef (onCitation (JObj c) s0) =
                  insert (the (d_citation_id c)) (citationIdsRef s0)
              \<and> butlast (currentReferencesRef (onCitation (JObj c) s0)) = currentReferencesRef s0
              \<and> r_id (last (currentReferencesRef (onCitation (JObj c) s0))) =
                  int (length (currentReferencesRef s0)) + 1
              \<and> r_citationId (last (currentReferencesRef (onCitation (JObj c) s0))) =
                  d_citation_id c"
    by (simp add: onCitation_def Let_def)
  from p1 p2 p3 show ?thesis by blast
qed

theorem citations_deduplicated_witness:
  "onCitation (JObj (no_fields\<lparr>d_citation_id := Some (ascii ''c1'')\<rparr>))
       ((asking ''Why?'')\<lparr>citationIdsRef := {ascii ''c1''}\<rparr>) =
     (asking ''Why?'')\<lparr>citationIdsRef := {ascii ''c1''}\<rparr>
   \<and> map r_citationId (committed_references
         (last (messages (deliver (repeated_events @ [(11, OnDone (JObj no_fields))])
                                  (handleSend 5 (asking ''How to install?''))))))
       = [Some (ascii ''c1''), Some (ascii ''c2'')]
   \<and> map r_id (committed_references
         (last (messages (deliver (repeated_events @ [(11, OnDone (JObj no_fields))])
                                  (handleSend 5 (asking ''How to install?''))))))
       = [1, 2]"
proof -
  have c: "canSend (asking ''How to install?'')"
    by (rule canSend_asking)
  have e: "\<forall>e\<in>set repeated_events. \<not> is_terminal (snd e)"
    by (simp add: repeated_events_def citing_def)
  have k: "card (set (turn_ids repeated_events)) = 2"
    using first_seen_length[of "turn_ids repeated_events"] first_seen_repeated by simp
  have seen: "the (d_citation_id (no_fields\<lparr>d_citation_id := Some (ascii ''c1'')\<rparr>))
      \<in> citationIdsRef ((asking ''Why?'')\<lparr>citationIdsRef := {ascii ''c1''}\<rparr>)"
    by simp
  let ?refs = "committed_references
         (last (messages (deliver (repeated_events @ [(11, OnDone (JObj no_fields))])
                                  (handleSend 5 (asking ''How to install?'')))))"
  note th = citations_deduplicated[OF c e,
      of "no_fields\<lparr>d_citation_id := Some (ascii ''c1'')\<rparr>"
         "(asking ''Why?'')\<lparr>citationIdsRef := {ascii ''c1''}\<rparr>"
         11 "JObj no_fields" 5]
  have p1: "onCitation (JObj (no_fields\<lparr>d_citation_id := Some (ascii ''c1'')\<rparr>))
       ((asking ''Why?'')\<lparr>citationIdsRef := {ascii ''c1''}\<rparr>) =
     (asking ''Why?'')\<lparr>citationIdsRef := {ascii ''c1''}\<rparr>"
    using th seen by blast
  from th have th3: "length ?refs = card (set (turn_ids repeated_events))
      \<and> map r_citationId ?refs = map Some (first_seen (turn_ids repeated_events))
      \<and> map r_id ?refs = map int [1..<Suc (length ?refs)]"
    unfolding Let_def by blast
  have l: "length ?refs = 2"
    using th3[THEN conjunct1] k by simp
  have ci: "map r_citationId ?refs = [Some (ascii ''c1''), Some (ascii ''c2'')]"
    using th3[THEN conjunct2, THEN conjunct1] first_seen_repeated by simp
  have "map r_id ?refs = map int [1..<Suc (length ?refs)]"
    using th3 by blast
  then have "map r_id ?refs = map int [1..<Suc 2]"
    unfolding l .
  then have ri: "map r_id ?refs = [1, 2]"
    by (simp add: upt_rec)
  from p1 ci ri show ?thesis by blast
qed


section \<open>The error path\<close>

text \<open>
  Claim C10. The error callback appends exactly one assistant message to the committed
  messages, which stay as they were; its content is the failure text (the fixed prefix
  followed by the error text) and it has no references, whatever references the turn had
  accumulated; the accumulated text, references and seen-set are emptied.
\<close>

theorem error_commits_text_only:
  "messages (apply_callback (t, OnError errText) s) =
     messages s @
       [\<lparr>m_id = show_int (t + 1), m_type = Assistant, m_content = error_prefix @ errText,
         m_timestamp = t, m_references = None\<rparr>]
   \<and> currentReferencesRef (apply_callback (t, OnError errText) s) = []
   \<and> currentReferences (apply_callback (t, OnError errText) s) = []
   \<and> citationIdsRef (apply_callback (t, OnError errText) s) = {}
   \<and> currentResponseRef (apply_callback (t, OnError errText) s) = []
   \<and> \<not> isTyping (apply_callback (t, OnError errText) s)"
  by (simp add: onError_def Let_def)


section \<open>Cancellation\<close>

text \<open>
  Claim C3. The source calls \<^verbatim>\<open>abortRef.current?.abort()\<close> on re-send, on clear and on
  teardown, and its comments say that this interrupts the running stream; but
  \<^verbatim>\<open>abortRef\<close> is never assigned and \<^verbatim>\<open>processChatStream\<close> is given no signal, so the
  call does nothing and the callbacks of the running request go on. Here a turn is under
  way with the partial text \<^verbatim>\<open>par\<close> and the user clears the chat; the clear-session request
  is answered with an error status, so the component stays mounted with its messages. The
  events that arrive afterwards still change the state, and the assistant message of the
  turn is committed.
\<close>

theorem clear_does_not_cancel:
  "messages
     (deliver [(8, OnToken (Some (ascii ''tial''))), (9, OnDone (JObj no_fields))]
        (clearChat 7 (Responded False (ascii ''Internal Server Error'') None)
           (deliver [(6, OnToken (Some (ascii ''par'')))]
              (handleSend 5 (asking ''hi''))))) =
     [welcome_message 0,
      \<lparr>m_id = ascii ''5'', m_type = User, m_content = ascii ''hi'', m_timestamp = 5,
       m_references = None\<rparr>,
      \<lparr>m_id = ascii ''10'', m_type = Assistant, m_content = ascii ''partial'',
       m_timestamp = 9, m_references = None\<rparr>]
   \<and> onClearChat_calls
       (clearChat 7 (Responded False (ascii ''Internal Server Error'') None)
          (deliver [(6, OnToken (Some (ascii ''par'')))]
             (handleSend 5 (asking ''hi'')))) = 0"
  by (simp add: handleSend_def canSend_def asking_def initial_chat_def js_trim_def
      js_whitespace_def clearChat_def abort_current_def onToken_def onDone_def to_text_def
      show_int_def Let_def ascii_def)


section \<open>Clearing the chat\<close>

text \<open>
  Claim C7, as stated, fails: when the clear-session request is answered with an error
  status, \<^verbatim>\<open>clearChat\<close> reports the failure and leaves the messages as they are. Here the
  chat holds the welcome message and a question, and after \<^verbatim>\<open>clearChat\<close> it is not the
  single welcome message.
\<close>

theorem clear_blocked_by_error_response:
  "messages (clearChat 9 (Responded False (ascii ''Internal Server Error'') None)
               (handleSend 5 (asking ''hi'')))
     \<noteq> [welcome_message 9]"
  by (simp add: clearChat_messages messages_hi unreachable_def)

text \<open>
  Claim C7, amended. \<^verbatim>\<open>clearChat\<close> calls \<^verbatim>\<open>clearSession\<close> and resets the messages to the
  single welcome message when \<^verbatim>\<open>clearSession\<close> succeeds, and also when it fails with a
  \<^verbatim>\<open>TypeError\<close> whose text contains \<^verbatim>\<open>Failed to fetch\<close> (the server cannot be reached); on
  any other failure the messages are left unchanged.
\<close>

theorem clear_resets_unless_other_failure:
  "(clearSession outcome = Inr () \<longrightarrow>
      messages (clearChat now outcome s) = [welcome_message now])
   \<and> (clearSession outcome = Inl error \<and> unreachable error \<longrightarrow>
      messages (clearChat now outcome s) = [welcome_message now])
   \<and> (clearSession outcome = Inl error \<and> \<not> unreachable error \<longrightarrow>
      messages (clearChat now outcome s) = messages s)"
  by (simp add: clearChat_messages)

theorem clear_resets_unless_other_failure_witness:
  "messages (clearChat 9 (Responded True (ascii ''OK'') None) (handleSend 5 (asking ''hi'')))
     = [welcome_message 9]
   \<and> messages (clearChat 9 (Rejected (TypeError (ascii ''Failed to fetch'')))
                 (handleSend 5 (asking ''hi'')))
     = [welcome_message 9]
   \<and> messages (clearChat 9 (Responded False (ascii ''Bad Gateway'') None)
                 (handleSend 5 (asking ''hi'')))
     = messages (handleSend 5 (asking ''hi''))"
proof -
  have a: "clearSession (Responded True (ascii ''OK'') None) = Inr ()" by simp
  have b: "clearSession (Rejected (TypeError (ascii ''Failed to fetch''))) =
      Inl (TypeError (ascii ''Failed to fetch''))" by simp
  have c: "clearSession (Responded False (ascii ''Bad Gateway'') None) =
      Inl (Error (ascii ''Clear session failed: '' @ ascii ''Bad Gateway''))" by simp
  have d: "\<not> unreachable (Error (ascii ''Clear session failed: '' @ ascii ''Bad Gateway''))"
    by (simp add: unreachable_def)
  from clear_resets_unless_other_failure[where outcome = "Responded True (ascii ''OK'') None"
      and now = 9 and s = "handleSend 5 (asking ''hi'')"] a
  have 1: "messages (clearChat 9 (Responded True (ascii ''OK'') None)
      (handleSend 5 (asking ''hi''))) = [welcome_message 9]" by blast
  from clear_resets_unless_other_failure[where
      outcome = "Rejected (TypeError (ascii ''Failed to fetch''))"
      and error = "TypeError (ascii ''Failed to fetch'')"
      and now = 9 and s = "handleSend 5 (asking ''hi'')"]
    b unreachable_Failed_to_fetch
  have 2: "messages (clearChat 9 (Rejected (TypeError (ascii ''Failed to fetch'')))
      (handleSend 5 (asking ''hi''))) = [welcome_message 9]" by blast
  from clear_resets_unless_other_failure[where
      outcome = "Responded False (ascii ''Bad Gateway'') None"
      and error = "Error (ascii ''Clear session failed: '' @ ascii ''Bad Gateway'')"
      and now = 9 and s = "handleSend 5 (asking ''hi'')"] c d
  have 3: "messages (clearChat 9 (Responded False (ascii ''Bad Gateway'') None)
      (handleSend 5 (asking ''hi''))) = messages (handleSend 5 (asking ''hi''))" by blast
  from 1 2 3 show ?thesis by blast
qed


section \<open>Failure of the request\<close>

text \<open>
  Claim C6, as stated, fails: when \<^verbatim>\<open>fetch\<close> rejects with the \<^verbatim>\<open>TypeError\<close> \<^verbatim>\<open>Failed to fetch\<close>,
  \<^verbatim>\<open>processChatStream\<close> does not call \<^verbatim>\<open>onError\<close>: it plays the simulated answer through
  \<^verbatim>\<open>onToken\<close> and \<^verbatim>\<open>onDone\<close>, and the message the controller commits is that answer, not
  an error message.
\<close>

theorem failed_fetch_is_simulated:
  "thrown_before_first_byte (ChatRejected (TypeError (ascii ''Failed to fetch''))) =
     Some (TypeError (ascii ''Failed to fetch''))
   \<and> m_content (last (messages
        (deliver (map (Pair 6)
                   (processChatStream no_parse (ascii ''hi'')
                      (ChatRejected (TypeError (ascii ''Failed to fetch'')))))
           (handleSend 5 (asking ''hi''))))) =
       mockResponse (ascii ''hi'') @ ascii '' ''
   \<and> \<not> startsWith (mockResponse (ascii ''hi'') @ ascii '' '') error_prefix"
proof -
  have m: "processChatStream no_parse (ascii ''hi'')
      (ChatRejected (TypeError (ascii ''Failed to fetch''))) = mock_stream (ascii ''hi'')"
    by (simp add: processChatStream_def catch_block_def ascii_def startsWith_def)
  have e: "currentResponseRef (handleSend 5 (asking ''hi'')) = []"
    using handleSend_started[OF canSend_hi] by simp
  have n: "\<not> startsWith (mockResponse (ascii ''hi'') @ ascii '' '') error_prefix"
    by (simp add: startsWith_def mockResponse_def mockResponse_prefix_def error_prefix_def
        ascii_def)
  from m deliver_mock_stream[OF e] n show ?thesis by simp
qed

text \<open>
  Claim C6, amended. A failure of the request before any text of the response is
  received (\<^verbatim>\<open>fetch\<close> rejects, the status is not ok, there is no body, or the first read
  fails), other than a \<^verbatim>\<open>TypeError\<close> whose message contains \<^verbatim>\<open>Failed to fetch\<close>, ends the
  turn as an Error event does: \<^verbatim>\<open>onError\<close> is the only callback, called with the message
  of the failure, and the controller commits one assistant message with the failure text,
  empties the pending turn and is no longer busy.
\<close>

theorem failure_before_first_byte_is_error:
  assumes "thrown_before_first_byte response = Some error"
    and "\<not> (is_TypeError error \<and> js_includes (error_message error) (ascii ''Failed to fetch''))"
  shows "processChatStream parse message response = [OnError (error_message error)]
       \<and> messages (deliver (map (Pair t) (processChatStream parse message response)) s) =
           messages s @
             [\<lparr>m_id = show_int (t + 1), m_type = Assistant,
               m_content = error_prefix @ error_message error,
               m_timestamp = t, m_references = None\<rparr>]
       \<and> \<not> isTyping (deliver (map (Pair t) (processChatStream parse message response)) s)
       \<and> currentResponseRef
           (deliver (map (Pair t) (processChatStream parse message response)) s) = []
       \<and> currentReferencesRef
           (deliver (map (Pair t) (processChatStream parse message response)) s) = []"
proof -
  have "processChatStream parse message response = [OnError (error_message error)]"
    using processChatStream_thrown[OF assms(1)] catch_block_error[OF assms(2)] by simp
  then show ?thesis by (simp add: onError_def Let_def)
qed

theorem failure_before_first_byte_is_error_witness:
  "m_content (last (messages
      (deliver (map (Pair 6)
                 (processChatStream no_parse (ascii ''hi'')
                    (ChatResponded False (ascii ''Bad Gateway'') None)))
         (handleSend 5 (asking ''hi''))))) =
     error_prefix @ ascii ''Chat request failed: Bad Gateway''"
proof -
  have a: "thrown_before_first_byte (ChatResponded False (ascii ''Bad Gateway'') None) =
      Some (Error (ascii ''Chat request failed: '' @ ascii ''Bad Gateway''))"
    by simp
  have b: "\<not> (is_TypeError (Error (ascii ''Chat request failed: '' @ ascii ''Bad Gateway''))
      \<and> js_includes (error_message (Error (ascii ''Chat request failed: '' @ ascii ''Bad Gateway'')))
            (ascii ''Failed to fetch''))"
    by simp
  note th = failure_before_first_byte_is_error[OF a b, of no_parse "ascii ''hi''" 6
      "handleSend 5 (asking ''hi'')"]
  from th have "messages
      (deliver (map (Pair 6)
                 (processChatStream no_parse (ascii ''hi'')
                    (ChatResponded False (ascii ''Bad Gateway'') None)))
         (handleSend 5 (asking ''hi''))) =
      messages (handleSend 5 (asking ''hi'')) @
        [\<lparr>m_id = show_int (6 + 1), m_type = Assistant,
          m_content = error_prefix @
            error_message (Error (ascii ''Chat request failed: '' @ ascii ''Bad Gateway'')),
          m_timestamp = 6, m_references = None\<rparr>]"
    by blast
  then show ?thesis by (simp add: ascii_def)
qed


section \<open>A stream that ends without a terminal event\<close>

text \<open>
  Claim C9. When the reader reports the end of the body and no done or error block has
  been parsed, \<^verbatim>\<open>processChatStream\<close> has called neither \<^verbatim>\<open>onDone\<close> nor \<^verbatim>\<open>onError\<close>; what
  it has called comes from the blocks before the last blank-line delimiter only, so a
  block left in the buffer without its delimiter is never emitted. The controller then
  has committed the user's message and no assistant message, and is still busy.
\<close>

theorem stream_end_without_terminal:
  assumes "canSend s" and "read_loop parse [] chunks = (cbs, False)"
    and "length ts = length cbs"
  shows "(\<forall>cb\<in>set cbs. \<not> is_terminal cb)
       \<and> process_events parse (butlast (js_split (concat chunks) (ascii ''\<newline>\<newline>''))) =
           (cbs, False)
       \<and> processChatStream parse (input s)
           (ChatResponded True statusText (Some (Body chunks None))) = cbs
       \<and> messages (deliver (zip ts cbs) (handleSend now s)) =
           messages s @
             [\<lparr>m_id = show_int now, m_type = User, m_content = input s,
               m_timestamp = now, m_references = None\<rparr>]
       \<and> isTyping (deliver (zip ts cbs) (handleSend now s))"
proof -
  have pe: "process_events parse (butlast (js_split (concat chunks) (ascii ''\<newline>\<newline>''))) =
      (cbs, False)"
    using assms(2) read_loop_from_start[of parse chunks] by simp
  then have nt: "\<forall>cb\<in>set cbs. \<not> is_terminal cb"
    by (rule process_events_nonterminal)
  have z: "\<forall>e\<in>set (zip ts cbs). \<not> is_terminal (snd e)"
    using nt by (auto dest: set_zip_rightD)
  have pc: "processChatStream parse (input s)
      (ChatResponded True statusText (Some (Body chunks None))) = cbs"
    using assms(2) by (simp add: processChatStream_def)
  from nt pe pc deliver_nonterminal_frame[OF z, of "handleSend now s"]
    handleSend_started[OF assms(1), of now]
  show ?thesis by simp
qed

theorem stream_end_without_terminal_witness:
  "read_loop demo_parse [] cut_short = ([OnToken (Some (ascii ''Hi''))], False)
   \<and> messages (deliver (zip [6] [OnToken (Some (ascii ''Hi''))])
                 (handleSend 5 (asking ''hi''))) =
       messages (asking ''hi'') @
         [\<lparr>m_id = show_int 5, m_type = User, m_content = input (asking ''hi''),
           m_timestamp = 5, m_references = None\<rparr>]
   \<and> isTyping (deliver (zip [6] [OnToken (Some (ascii ''Hi''))])
                 (handleSend 5 (asking ''hi'')))"
proof -
  have l: "length [6::int] = length [OnToken (Some (ascii ''Hi''))]" by simp
  from stream_end_without_terminal[OF canSend_hi read_loop_cut_short l, of "ascii ''OK''" 5]
    read_loop_cut_short
  show ?thesis by blast
qed


section \<open>Resolving the file of an image\<close>





section \<open>Address schemes the sanitizer lets through\<close>

text \<open>
  Claim C8. With the protocols of \<^verbatim>\<open>sanitizeSchema\<close>, an image address (attribute \<^verbatim>\<open>src\<close>)
  with a scheme is kept unchanged when the scheme is http, https, data or blob, and a
  link address (attribute \<^verbatim>\<open>href\<close>) when it is http, https, mailto or tel; an address
  with any other scheme is dropped, which is a result and not an error.
\<close>

theorem sanitizer_scheme_allowlist:
  assumes "scheme_of address = Some scheme"
  shows "sanitize_address (sanitizeSchema_protocols defaultSchema_protocols)
             (ascii ''src'') address =
           (if scheme \<in> {ascii ''http'', ascii ''https'', ascii ''data'', ascii ''blob''}
            then Some address else None)
       \<and> sanitize_address (sanitizeSchema_protocols defaultSchema_protocols)
             (ascii ''href'') address =
           (if scheme \<in> {ascii ''http'', ascii ''https'', ascii ''mailto'', ascii ''tel''}
            then Some address else None)"
proof -
  have "ascii ''src'' \<noteq> ascii ''href''" by (simp add: ascii_def)
  with assms show ?thesis
    by (simp add: sanitize_address_def sanitizeSchema_protocols_def)
qed

theorem sanitizer_scheme_allowlist_witness:
  "sanitize_address (sanitizeSchema_protocols Map.empty) (ascii ''href'')
       (ascii ''javascript:alert(1)'') = None
   \<and> sanitize_address (sanitizeSchema_protocols Map.empty) (ascii ''src'')
       (ascii ''https://example.org/a.png'') = Some (ascii ''https://example.org/a.png'')
   \<and> sanitize_address (sanitizeSchema_protocols Map.empty) (ascii ''src'')
       (ascii ''data:image/png;base64,AAAA'') = Some (ascii ''data:image/png;base64,AAAA'')"
proof -
  have a: "sanitize_address (sanitizeSchema_protocols Map.empty) (ascii ''href'')
       (ascii ''javascript:alert(1)'') = None"
    using sanitizer_scheme_allowlist[of "ascii ''javascript:alert(1)''" "ascii ''javascript''"
        Map.empty] example_schemes
    by (simp add: ascii_def)
  have b: "sanitize_address (sanitizeSchema_protocols Map.empty) (ascii ''src'')
       (ascii ''https://example.org/a.png'') = Some (ascii ''https://example.org/a.png'')"
    using sanitizer_scheme_allowlist[of "ascii ''https://example.org/a.png''" "ascii ''https''"
        Map.empty] example_schemes
    by (simp add: ascii_def)
  have c: "sanitize_address (sanitizeSchema_protocols Map.empty) (ascii ''src'')
       (ascii ''data:image/png;base64,AAAA'') = Some (ascii ''data:image/png;base64,AAAA'')"
    using sanitizer_scheme_allowlist[of "ascii ''data:image/png;base64,AAAA''" "ascii ''data''"
        Map.empty] example_schemes
    by (simp add: ascii_def)
  from a b c show ?thesis by blast
qed

end
